theory Spec2Isabelle
  imports Complex_Main
begin

section \<open>The force simulation of force-calculations.cpp\<close>

text \<open>
  The source is one C++ class, \<^verbatim>\<open>ForceSimulation\<close>, with the structs \<^verbatim>\<open>Vec3\<close>,
  \<^verbatim>\<open>Node\<close> and \<^verbatim>\<open>Link\<close>. The embedding follows it field by field and loop by loop.

  Scalars: the source computes in \<^verbatim>\<open>float\<close>. The model computes in \<^typ>\<open>real\<close>, that is
  with the exact values: rounding, overflow to an infinity and NaN are not represented.
  Every statement below is about this exact arithmetic.

  Indices: \<^verbatim>\<open>Link::source\<close> and \<^verbatim>\<open>Link::target\<close> are C++ \<^verbatim>\<open>int\<close>; no arithmetic is
  done on them, they are only used as subscripts, so they are \<^typ>\<open>int\<close> here. The
  subscript operator of \<^verbatim>\<open>std::vector\<close> converts a negative \<^verbatim>\<open>int\<close> to a \<^verbatim>\<open>size_t\<close>
  beyond any size a vector can have, so an index addresses an element exactly when it is
  non-negative and below the size.
\<close>

subsection \<open>Data\<close>

text \<open>
  The members \<^verbatim>\<open>x\<close>, \<^verbatim>\<open>y\<close>, \<^verbatim>\<open>z\<close> of \<^verbatim>\<open>Vec3\<close> are the fields \<open>x_c\<close>, \<open>y_c\<close>, \<open>z_c\<close>, which leaves
  the three letters free for variables.
\<close>

record Vec3 =
  x_c :: real
  y_c :: real
  z_c :: real

record Node =
  position :: Vec3
  velocity :: Vec3
  charge :: real

record Link =
  source :: int
  target :: int

record ForceSimulation =
  nodes :: "Node list"
  links :: "Link list"
  distances :: "real list"
  strengths :: "real list"
  maxDistance :: real
  velocityDecay :: real

text \<open>Values of the four structs, written by their members in the order of declaration.\<close>

abbreviation vec3 :: "real \<Rightarrow> real \<Rightarrow> real \<Rightarrow> Vec3" where
  "vec3 a b c \<equiv> \<lparr>x_c = a, y_c = b, z_c = c\<rparr>"

abbreviation mk_node :: "Vec3 \<Rightarrow> Vec3 \<Rightarrow> real \<Rightarrow> Node" where
  "mk_node p v c \<equiv> \<lparr>position = p, velocity = v, charge = c\<rparr>"

abbreviation mk_link :: "int \<Rightarrow> int \<Rightarrow> Link" where
  "mk_link s t \<equiv> \<lparr>source = s, target = t\<rparr>"

abbreviation mk_engine ::
    "Node list \<Rightarrow> Link list \<Rightarrow> real list \<Rightarrow> real list \<Rightarrow> real \<Rightarrow> real \<Rightarrow> ForceSimulation" where
  "mk_engine ns ls ds ss maxDist velDecay \<equiv>
     \<lparr>nodes = ns, links = ls, distances = ds, strengths = ss,
      maxDistance = maxDist, velocityDecay = velDecay\<rparr>"

text \<open>
  What an execution can run into. \<^verbatim>\<open>operator[]\<close> of \<^verbatim>\<open>std::vector\<close> is unchecked: a
  subscript past the end is undefined behaviour in C++ and is the outcome \<open>OutOfBounds\<close>
  here. A division by zero is no failure of the C++ program (the quotient is an infinity
  or NaN); the model records it as \<open>DivisionByZero\<close> so that it cannot pass unseen as
  the value \<open>a / 0 = 0\<close> of HOL.
\<close>

datatype fault = OutOfBounds | DivisionByZero

definition fdiv :: "real \<Rightarrow> real \<Rightarrow> fault + real" where
  "fdiv a b = (if b = 0 then Inl DivisionByZero else Inr (a / b))"

text \<open>A \<^verbatim>\<open>for\<close> loop whose body may stop the execution: the body runs on each index in turn.\<close>

fun for_each :: "('i \<Rightarrow> 's \<Rightarrow> fault + 's) \<Rightarrow> 'i list \<Rightarrow> 's \<Rightarrow> fault + 's" where
  "for_each body [] s = Inr s"
| "for_each body (i # is) s =
     (case body i s of Inl e \<Rightarrow> Inl e | Inr s' \<Rightarrow> for_each body is s')"

subsection \<open>Construction, setters\<close>




definition setDistances :: "real list \<Rightarrow> ForceSimulation \<Rightarrow> ForceSimulation" where
  "setDistances newDistances s = s\<lparr>distances := newDistances\<rparr>"

definition setStrengths :: "real list \<Rightarrow> ForceSimulation \<Rightarrow> ForceSimulation" where
  "setStrengths newStrengths s = s\<lparr>strengths := newStrengths\<rparr>"

subsection \<open>step(), first loop: repulsion\<close>

text \<open>
  The body of the inner loop over \<open>j\<close>, for the node \<open>i\<close> of the outer loop: it reads the
  node array \<open>ns\<close> as it is at that moment and adds to the local \<^verbatim>\<open>force\<close>.
\<close>

definition repulsion_pair :: "Node list \<Rightarrow> real \<Rightarrow> nat \<Rightarrow> nat \<Rightarrow> Vec3 \<Rightarrow> fault + Vec3" where
  "repulsion_pair ns maxD i j force =
     (if i \<noteq> j then
        let dx = x_c (position (ns ! j)) - x_c (position (ns ! i));
            dy = y_c (position (ns ! j)) - y_c (position (ns ! i));
            dz = z_c (position (ns ! j)) - z_c (position (ns ! i));
            distance = sqrt (dx * dx + dy * dy + dz * dz)
        in if distance > 0 \<and> distance < maxD then
             case fdiv (charge (ns ! i) * charge (ns ! j)) (distance * distance) of
               Inl e \<Rightarrow> Inl e
             | Inr repulsion \<Rightarrow>
                (case fdiv dx distance of Inl e \<Rightarrow> Inl e | Inr ux \<Rightarrow>
                 case fdiv dy distance of Inl e \<Rightarrow> Inl e | Inr uy \<Rightarrow>
                 case fdiv dz distance of Inl e \<Rightarrow> Inl e | Inr uz \<Rightarrow>
                   Inr \<lparr>x_c = x_c force + ux * repulsion,
                        y_c = y_c force + uy * repulsion,
                        z_c = z_c force + uz * repulsion\<rparr>)
           else Inr force
      else Inr force)"

text \<open>
  The body of the outer loop: the inner loop from \<^verbatim>\<open>force = {0, 0, 0}\<close>, then the three
  \<^verbatim>\<open>+=\<close> on the velocity of \<^verbatim>\<open>nodes[i]\<close>, in place. Both loops run over
  \<^verbatim>\<open>0 .. nodes.size() - 1\<close>; nothing in \<^verbatim>\<open>step\<close> changes the size.
\<close>

definition repulsion_node :: "real \<Rightarrow> nat \<Rightarrow> Node list \<Rightarrow> fault + Node list" where
  "repulsion_node maxD i ns =
     (case for_each (repulsion_pair ns maxD i) [0..<length ns] \<lparr>x_c = 0, y_c = 0, z_c = 0\<rparr> of
        Inl e \<Rightarrow> Inl e
      | Inr force \<Rightarrow>
          let v = velocity (ns ! i)
          in Inr (ns[i := (ns ! i)\<lparr>velocity :=
                    \<lparr>x_c = x_c v + x_c force, y_c = y_c v + y_c force, z_c = z_c v + z_c force\<rparr>\<rparr>]))"

definition repulsion_phase :: "real \<Rightarrow> Node list \<Rightarrow> fault + Node list" where
  "repulsion_phase maxD ns = for_each (repulsion_node maxD) [0..<length ns] ns"

subsection \<open>step(), second loop: links\<close>

text \<open>
  One iteration, for the link number \<open>i\<close>. The source reads \<^verbatim>\<open>links[i]\<close>, \<^verbatim>\<open>distances[i]\<close>,
  \<^verbatim>\<open>strengths[i]\<close> and the positions of \<^verbatim>\<open>nodes[target]\<close> and \<^verbatim>\<open>nodes[source]\<close> before the
  test on the distance, so each of these subscripts must be in range whatever the
  distance is. The velocity of the source node is updated first, then that of the target
  node, both in place.
\<close>

definition in_range :: "int \<Rightarrow> 'a list \<Rightarrow> bool" where
  "in_range k xs = (0 \<le> k \<and> nat k < length xs)"

definition link_iter :: "Link list \<Rightarrow> real list \<Rightarrow> real list \<Rightarrow> nat \<Rightarrow> Node list \<Rightarrow> fault + Node list" where
  "link_iter ls ds ss i ns =
     (let src = source (ls ! i); tgt = target (ls ! i)
      in if \<not> (i < length ds \<and> i < length ss \<and> in_range tgt ns \<and> in_range src ns)
         then Inl OutOfBounds
         else
           let targetDistance = ds ! i;
               strength = ss ! i;
               s = nat src; t = nat tgt;
               dx = x_c (position (ns ! t)) - x_c (position (ns ! s));
               dy = y_c (position (ns ! t)) - y_c (position (ns ! s));
               dz = z_c (position (ns ! t)) - z_c (position (ns ! s));
               distance = sqrt (dx * dx + dy * dy + dz * dz)
           in if distance > 0 then
                let force = strength * (distance - targetDistance)
                in case fdiv dx distance of Inl e \<Rightarrow> Inl e | Inr ux \<Rightarrow>
                   case fdiv dy distance of Inl e \<Rightarrow> Inl e | Inr uy \<Rightarrow>
                   case fdiv dz distance of Inl e \<Rightarrow> Inl e | Inr uz \<Rightarrow>
                     let fx = ux * force; fy = uy * force; fz = uz * force;
                         vs = velocity (ns ! s);
                         ns1 = ns[s := (ns ! s)\<lparr>velocity :=
                                 \<lparr>x_c = x_c vs + fx, y_c = y_c vs + fy, z_c = z_c vs + fz\<rparr>\<rparr>];
                         vt = velocity (ns1 ! t)
                     in Inr (ns1[t := (ns1 ! t)\<lparr>velocity :=
                                 \<lparr>x_c = x_c vt - fx, y_c = y_c vt - fy, z_c = z_c vt - fz\<rparr>\<rparr>])
              else Inr ns)"

definition link_phase :: "Link list \<Rightarrow> real list \<Rightarrow> real list \<Rightarrow> Node list \<Rightarrow> fault + Node list" where
  "link_phase ls ds ss ns = for_each (link_iter ls ds ss) [0..<length ls] ns"

subsection \<open>step(), third loop: integration\<close>

definition integrate_node :: "real \<Rightarrow> Node \<Rightarrow> Node" where
  "integrate_node decay node =
     (let p = position node; v = velocity node;
          node1 = node\<lparr>position := \<lparr>x_c = x_c p + x_c v, y_c = y_c p + y_c v, z_c = z_c p + z_c v\<rparr>\<rparr>;
          v1 = velocity node1
      in node1\<lparr>velocity := \<lparr>x_c = x_c v1 * decay, y_c = y_c v1 * decay, z_c = z_c v1 * decay\<rparr>\<rparr>)"

definition integration_phase :: "real \<Rightarrow> Node list \<Rightarrow> Node list" where
  "integration_phase decay ns = map (integrate_node decay) ns"

subsection \<open>step() and getNodes()\<close>

definition step :: "ForceSimulation \<Rightarrow> fault + ForceSimulation" where
  "step s =
     (case repulsion_phase (maxDistance s) (nodes s) of
        Inl e \<Rightarrow> Inl e
      | Inr ns1 \<Rightarrow>
         (case link_phase (links s) (distances s) (strengths s) ns1 of
            Inl e \<Rightarrow> Inl e
          | Inr ns2 \<Rightarrow> Inr (s\<lparr>nodes := integration_phase (velocityDecay s) ns2\<rparr>)))"







section \<open>Vocabulary of the specification\<close>

text \<open>Vectors, as the specification speaks of them: sum, difference, multiple, norm.\<close>

definition vzero :: Vec3 where
  "vzero = \<lparr>x_c = 0, y_c = 0, z_c = 0\<rparr>"

definition vplus :: "Vec3 \<Rightarrow> Vec3 \<Rightarrow> Vec3" where
  "vplus a b = \<lparr>x_c = x_c a + x_c b, y_c = y_c a + y_c b, z_c = z_c a + z_c b\<rparr>"

definition vminus :: "Vec3 \<Rightarrow> Vec3 \<Rightarrow> Vec3" where
  "vminus a b = \<lparr>x_c = x_c a - x_c b, y_c = y_c a - y_c b, z_c = z_c a - z_c b\<rparr>"

definition vscale :: "real \<Rightarrow> Vec3 \<Rightarrow> Vec3" where
  "vscale k a = \<lparr>x_c = k * x_c a, y_c = k * y_c a, z_c = k * z_c a\<rparr>"

definition vnorm :: "Vec3 \<Rightarrow> real" where
  "vnorm a = sqrt ((x_c a)\<^sup>2 + (y_c a)\<^sup>2 + (z_c a)\<^sup>2)"

definition vsum :: "Vec3 list \<Rightarrow> Vec3" where
  "vsum vs = \<lparr>x_c = sum_list (map x_c vs), y_c = sum_list (map y_c vs), z_c = sum_list (map z_c vs)\<rparr>"

text \<open>The indices below \<open>n\<close> other than \<open>i\<close>, in increasing order.\<close>

definition others :: "nat \<Rightarrow> nat \<Rightarrow> nat list" where
  "others n i = filter (\<lambda>j. j \<noteq> i) [0..<n]"

text \<open>The Euclidean distance between the positions of the nodes \<open>i\<close> and \<open>j\<close>.\<close>

definition pair_distance :: "Node list \<Rightarrow> nat \<Rightarrow> nat \<Rightarrow> real" where
  "pair_distance ns i j = vnorm (vminus (position (ns ! j)) (position (ns ! i)))"

text \<open>
  What the specification says the ordered pair \<open>(i, j)\<close> adds to the velocity of the node
  \<open>i\<close>: nothing at distance \<open>0\<close> or at \<open>maxDistance\<close> and beyond, otherwise
  \<open>charge\<^sub>i * charge\<^sub>j / d\<^sup>2\<close> times the unit vector from \<open>i\<close> to \<open>j\<close>. This definition is
  written from the words of the specification, to be compared with \<open>repulsion_pair\<close>.
\<close>

definition spec_repulsion :: "real \<Rightarrow> Node list \<Rightarrow> nat \<Rightarrow> nat \<Rightarrow> Vec3" where
  "spec_repulsion maxD ns i j =
     (let d = pair_distance ns i j
      in if d = 0 \<or> d \<ge> maxD then vzero
         else let magnitude = charge (ns ! i) * charge (ns ! j) / d\<^sup>2
              in vscale magnitude (vscale (1 / d) (vminus (position (ns ! j)) (position (ns ! i)))))"

text \<open>
  The sum of these contributions over all \<open>j \<noteq> i\<close>, and the node \<open>i\<close> with that sum added
  to its velocity.
\<close>

definition net_repulsion :: "real \<Rightarrow> Node list \<Rightarrow> nat \<Rightarrow> Vec3" where
  "net_repulsion maxD ns i = vsum (map (spec_repulsion maxD ns i) (others (length ns) i))"

definition repulsed :: "real \<Rightarrow> Node list \<Rightarrow> nat \<Rightarrow> Node" where
  "repulsed maxD ns i = (ns ! i)\<lparr>velocity := vplus (velocity (ns ! i)) (net_repulsion maxD ns i)\<rparr>"

text \<open>The node array once the outer repulsion loop has handled the nodes below \<open>k\<close>.\<close>

definition repulsed_upto :: "real \<Rightarrow> Node list \<Rightarrow> nat \<Rightarrow> Node list" where
  "repulsed_upto maxD ns k = map (\<lambda>i. if i < k then repulsed maxD ns i else ns ! i) [0..<length ns]"

text \<open>
  Every subscript of the iteration for the link \<open>i\<close> addresses an element, and the same
  for every link of an engine.
\<close>

definition link_ok :: "Link list \<Rightarrow> real list \<Rightarrow> real list \<Rightarrow> Node list \<Rightarrow> nat \<Rightarrow> bool" where
  "link_ok ls ds ss ns i =
     (i < length ds \<and> i < length ss \<and> in_range (source (ls ! i)) ns \<and> in_range (target (ls ! i)) ns)"

definition links_ok :: "ForceSimulation \<Rightarrow> bool" where
  "links_ok s = (\<forall>k<length (links s). link_ok (links s) (distances s) (strengths s) (nodes s) k)"

text \<open>
  The distance between the two ends of the link \<open>k\<close>, and what the specification says
  the link adds to the velocity of its source and takes from the velocity of its target:
  \<open>strength[k] * (d - targetDistance[k])\<close> times the unit vector from source to target.
  Written from the words of the specification, to be compared with \<open>link_iter\<close>.
\<close>

definition link_distance :: "Link list \<Rightarrow> Node list \<Rightarrow> nat \<Rightarrow> real" where
  "link_distance ls ns k = pair_distance ns (nat (source (ls ! k))) (nat (target (ls ! k)))"

definition spec_link_force :: "Link list \<Rightarrow> real list \<Rightarrow> real list \<Rightarrow> Node list \<Rightarrow> nat \<Rightarrow> Vec3" where
  "spec_link_force ls ds ss ns k =
     (let s = nat (source (ls ! k)); t = nat (target (ls ! k));
          displacement = vminus (position (ns ! t)) (position (ns ! s));
          d = vnorm displacement;
          force = ss ! k * (d - ds ! k)
      in vscale force (vscale (1 / d) displacement))"

section \<open>Loops and vectors\<close>

lemma vplus_zero: "vplus a vzero = a"
  by (simp add: vplus_def vzero_def)

lemma for_each_pure:
  "(\<And>i s. i \<in> set xs \<Longrightarrow> body i s = Inr (g i s)) \<Longrightarrow> for_each body xs s = Inr (fold g xs s)"
  by (induction xs arbitrary: s) auto

lemma repulsion_pair_eq:
  assumes "i \<noteq> j"
  shows "repulsion_pair ns maxD i j force = Inr (vplus force (spec_repulsion maxD ns i j))"
proof -
  define dx where "dx = x_c (position (ns ! j)) - x_c (position (ns ! i))"
  define dy where "dy = y_c (position (ns ! j)) - y_c (position (ns ! i))"
  define dz where "dz = z_c (position (ns ! j)) - z_c (position (ns ! i))"
  define d where "d = sqrt (dx * dx + dy * dy + dz * dz)"
  define c where "c = charge (ns ! i) * charge (ns ! j)"
  have pd: "pair_distance ns i j = d"
    by (simp add: pair_distance_def vnorm_def vminus_def d_def dx_def dy_def dz_def power2_eq_square)
  have nonneg: "0 \<le> d" by (simp add: d_def)
  have code: "repulsion_pair ns maxD i j force =
      (if 0 < d \<and> d < maxD
       then Inr \<lparr>x_c = x_c force + dx / d * (c / (d * d)),
                 y_c = y_c force + dy / d * (c / (d * d)),
                 z_c = z_c force + dz / d * (c / (d * d))\<rparr>
       else Inr force)"
    using assms unfolding repulsion_pair_def d_def dx_def dy_def dz_def c_def
    by (simp add: Let_def fdiv_def)
  have spec: "spec_repulsion maxD ns i j =
      (if d = 0 \<or> maxD \<le> d then vzero
       else \<lparr>x_c = c / d\<^sup>2 * (1 / d * dx), y_c = c / d\<^sup>2 * (1 / d * dy), z_c = c / d\<^sup>2 * (1 / d * dz)\<rparr>)"
    unfolding spec_repulsion_def pd Let_def
    by (simp add: vscale_def vminus_def dx_def dy_def dz_def c_def)
  show ?thesis
  proof (cases "0 < d \<and> d < maxD")
    case True
    then show ?thesis
      unfolding code spec by (simp add: vplus_def power2_eq_square mult_ac)
  next
    case False
    with nonneg have "d = 0 \<or> maxD \<le> d" by linarith
    with False show ?thesis
      unfolding code spec by (auto simp: vplus_zero)
  qed
qed

lemma for_each_append:
  "for_each body (xs @ ys) s =
     (case for_each body xs s of Inl e \<Rightarrow> Inl e | Inr s' \<Rightarrow> for_each body ys s')"
  by (induction xs arbitrary: s) (auto split: sum.splits)

lemma fold_spec_repulsions:
  "fold (\<lambda>j f. if i \<noteq> j then vplus f (c j) else f) js f0 =
     vplus f0 (vsum (map c (filter (\<lambda>j. j \<noteq> i) js)))"
proof (induction js arbitrary: f0)
  case Nil
  show ?case by (simp add: vsum_def vplus_def)
next
  case (Cons j js)
  show ?case by (simp add: Cons.IH) (simp add: vsum_def vplus_def add.assoc)
qed

lemma inner_loop:
  "for_each (repulsion_pair ns maxD i) js f0 =
     Inr (vplus f0 (vsum (map (spec_repulsion maxD ns i) (filter (\<lambda>j. j \<noteq> i) js))))"
proof -
  have "for_each (repulsion_pair ns maxD i) js f0 =
      Inr (fold (\<lambda>j f. if i \<noteq> j then vplus f (spec_repulsion maxD ns i j) else f) js f0)"
    by (rule for_each_pure) (simp add: repulsion_pair_eq, simp add: repulsion_pair_def)
  then show ?thesis by (simp add: fold_spec_repulsions)
qed

lemma repulsion_node_eq:
  "repulsion_node maxD i ns = Inr (ns[i := repulsed maxD ns i])"
  by (simp add: repulsion_node_def inner_loop repulsed_def net_repulsion_def others_def vplus_def vzero_def vsum_def Let_def)

lemma spec_repulsion_cong:
  assumes "position (a ! i) = position (b ! i)" "position (a ! j) = position (b ! j)"
    and "charge (a ! i) = charge (b ! i)" "charge (a ! j) = charge (b ! j)"
  shows "spec_repulsion maxD a i j = spec_repulsion maxD b i j"
  using assms by (simp add: spec_repulsion_def pair_distance_def Let_def)

lemma net_repulsion_cong:
  assumes "length a = length b"
    and "\<And>k. k < length b \<Longrightarrow> position (a ! k) = position (b ! k) \<and> charge (a ! k) = charge (b ! k)"
    and "i < length b"
  shows "net_repulsion maxD a i = net_repulsion maxD b i"
proof -
  have "map (spec_repulsion maxD a i) (others (length b) i) = map (spec_repulsion maxD b i) (others (length b) i)"
    by (rule map_cong) (auto simp: others_def assms intro!: spec_repulsion_cong)
  then show ?thesis unfolding net_repulsion_def assms(1) by (rule arg_cong)
qed

lemma repulsed_upto_simps:
  "length (repulsed_upto maxD ns k) = length ns"
  "i < length ns \<Longrightarrow> position (repulsed_upto maxD ns k ! i) = position (ns ! i)"
  "i < length ns \<Longrightarrow> charge (repulsed_upto maxD ns k ! i) = charge (ns ! i)"
  by (simp_all add: repulsed_upto_def repulsed_def)

lemma outer_loop:
  "k \<le> length ns \<Longrightarrow> for_each (repulsion_node maxD) [0..<k] ns = Inr (repulsed_upto maxD ns k)"
proof (induction k)
  case 0
  show ?case by (simp add: repulsed_upto_def map_nth)
next
  case (Suc k)
  let ?cur = "repulsed_upto maxD ns k"
  have k: "k < length ns" using Suc.prems by simp
  have net: "net_repulsion maxD ?cur k = net_repulsion maxD ns k"
    by (rule net_repulsion_cong) (simp_all add: repulsed_upto_simps k)
  have cur_k: "?cur ! k = ns ! k" using k by (simp add: repulsed_upto_def)
  have "?cur[k := repulsed maxD ?cur k] = repulsed_upto maxD ns (Suc k)"
    by (rule nth_equalityI)
       (auto simp: repulsed_upto_simps nth_list_update repulsed_def net cur_k, 
        auto simp: repulsed_upto_def repulsed_def less_Suc_eq)
  with Suc.IH k show ?case
    by (simp add: for_each_append repulsion_node_eq)
qed

lemma repulsion_phase_eq:
  "repulsion_phase maxD ns = Inr (map (repulsed maxD ns) [0..<length ns])"
  by (simp add: repulsion_phase_def outer_loop repulsed_upto_def)


lemma link_iter_fault: "\<not> link_ok ls ds ss ns i \<Longrightarrow> link_iter ls ds ss i ns = Inl OutOfBounds"
  by (auto simp: link_iter_def link_ok_def Let_def)

lemma link_iter_eq:
  assumes ok: "link_ok ls ds ss ns k"
  shows "link_iter ls ds ss k ns =
     Inr (if link_distance ls ns k = 0 then ns
          else (let s = nat (source (ls ! k)); t = nat (target (ls ! k));
                    f = spec_link_force ls ds ss ns k;
                    ns1 = ns[s := (ns ! s)\<lparr>velocity := vplus (velocity (ns ! s)) f\<rparr>]
                in ns1[t := (ns1 ! t)\<lparr>velocity := vminus (velocity (ns1 ! t)) f\<rparr>]))"
proof -
  define s where "s = nat (source (ls ! k))"
  define t where "t = nat (target (ls ! k))"
  define dx where "dx = x_c (position (ns ! t)) - x_c (position (ns ! s))"
  define dy where "dy = y_c (position (ns ! t)) - y_c (position (ns ! s))"
  define dz where "dz = z_c (position (ns ! t)) - z_c (position (ns ! s))"
  define d where "d = sqrt (dx * dx + dy * dy + dz * dz)"
  define force where "force = ss ! k * (d - ds ! k)"
  have ld: "link_distance ls ns k = d"
    by (simp add: link_distance_def pair_distance_def vnorm_def vminus_def d_def dx_def dy_def dz_def
        s_def t_def power2_eq_square)
  have nonneg: "0 \<le> d" by (simp add: d_def)
  have f: "spec_link_force ls ds ss ns k =
      \<lparr>x_c = force * (1 / d * dx), y_c = force * (1 / d * dy), z_c = force * (1 / d * dz)\<rparr>"
    by (simp add: spec_link_force_def Let_def vscale_def vminus_def vnorm_def force_def d_def
        dx_def dy_def dz_def s_def t_def power2_eq_square)
  define ns1 where "ns1 = ns[s := (ns ! s)\<lparr>velocity :=
                 \<lparr>x_c = x_c (velocity (ns ! s)) + dx / d * force,
                  y_c = y_c (velocity (ns ! s)) + dy / d * force,
                  z_c = z_c (velocity (ns ! s)) + dz / d * force\<rparr>\<rparr>]"
  have nz: "0 < d \<Longrightarrow> fdiv a d = Inr (a / d)" for a
    by (simp add: fdiv_def)
  have code: "link_iter ls ds ss k ns =
      (if 0 < d then
         Inr (ns1[t := (ns1 ! t)\<lparr>velocity :=
                 \<lparr>x_c = x_c (velocity (ns1 ! t)) - dx / d * force,
                  y_c = y_c (velocity (ns1 ! t)) - dy / d * force,
                  z_c = z_c (velocity (ns1 ! t)) - dz / d * force\<rparr>\<rparr>])
       else Inr ns)"
  proof (cases "0 < d")
    case True
    have "link_iter ls ds ss k ns = Inr (ns1[t := (ns1 ! t)\<lparr>velocity :=
                 \<lparr>x_c = x_c (velocity (ns1 ! t)) - dx / d * force,
                  y_c = y_c (velocity (ns1 ! t)) - dy / d * force,
                  z_c = z_c (velocity (ns1 ! t)) - dz / d * force\<rparr>\<rparr>])"
      using ok True nz
      unfolding link_iter_def link_ok_def Let_def ns1_def force_def d_def dx_def dy_def dz_def s_def t_def
      by (simp only: if_True if_False simp_thms sum.case)
    with True show ?thesis by simp
  next
    case False
    have "link_iter ls ds ss k ns = Inr ns"
      using ok False
      unfolding link_iter_def link_ok_def Let_def d_def dx_def dy_def dz_def s_def t_def
      by (simp only: if_True if_False simp_thms)
    with False show ?thesis by simp
  qed
  have spec1: "ns1 = ns[s := (ns ! s)\<lparr>velocity := vplus (velocity (ns ! s)) (spec_link_force ls ds ss ns k)\<rparr>]"
    unfolding ns1_def f by (simp add: vplus_def mult_ac)
  show ?thesis
  proof (cases "0 < d")
    case True
    have "ns1[t := (ns1 ! t)\<lparr>velocity :=
                 \<lparr>x_c = x_c (velocity (ns1 ! t)) - dx / d * force,
                  y_c = y_c (velocity (ns1 ! t)) - dy / d * force,
                  z_c = z_c (velocity (ns1 ! t)) - dz / d * force\<rparr>\<rparr>]
       = ns1[t := (ns1 ! t)\<lparr>velocity := vminus (velocity (ns1 ! t)) (spec_link_force ls ds ss ns k)\<rparr>]"
      unfolding f by (simp add: vminus_def mult_ac)
    with True show ?thesis
      unfolding code ld Let_def s_def [symmetric] t_def [symmetric] spec1 [symmetric]
      by simp
  next
    case False
    with nonneg have "d = 0" by simp
    then show ?thesis unfolding code ld by simp
  qed
qed

lemma map_update_same: "f y = f (xs ! i) \<Longrightarrow> map f (xs[i := y]) = map f xs"
  by (cases "i < length xs") (simp_all add: map_update list_update_same_conv list_update_beyond)

lemma velocity_update_frame:
  "length (ns[i := (ns ! i)\<lparr>velocity := a\<rparr>]) = length ns"
  "map position (ns[i := (ns ! i)\<lparr>velocity := a\<rparr>]) = map position ns"
  "map charge (ns[i := (ns ! i)\<lparr>velocity := a\<rparr>]) = map charge ns"
  by (simp_all add: map_update_same)

lemma link_iter_cases:
  "link_iter ls ds ss k ns = Inl OutOfBounds \<and> \<not> link_ok ls ds ss ns k \<or>
   (\<exists>ns'. link_iter ls ds ss k ns = Inr ns' \<and> link_ok ls ds ss ns k \<and> length ns' = length ns \<and>
      map position ns' = map position ns \<and> map charge ns' = map charge ns)"
proof (cases "link_ok ls ds ss ns k")
  case False
  then show ?thesis by (simp add: link_iter_fault)
next
  case True
  show ?thesis
    using True by (simp add: link_iter_eq Let_def velocity_update_frame)
qed

lemma link_ok_length: "length a = length b \<Longrightarrow> link_ok ls ds ss a k = link_ok ls ds ss b k"
  by (simp add: link_ok_def in_range_def)

lemma link_loop_cases:
  "for_each (link_iter ls ds ss) ks ns = Inl OutOfBounds \<and> \<not> (\<forall>k\<in>set ks. link_ok ls ds ss ns k) \<or>
   (\<exists>ns'. for_each (link_iter ls ds ss) ks ns = Inr ns' \<and> (\<forall>k\<in>set ks. link_ok ls ds ss ns k) \<and>
      length ns' = length ns \<and> map position ns' = map position ns \<and> map charge ns' = map charge ns)"
proof (induction ks arbitrary: ns)
  case Nil
  show ?case by simp
next
  case (Cons k ks)
  from link_iter_cases [of ls ds ss k ns] show ?case
  proof (elim disjE conjE exE)
    assume "link_iter ls ds ss k ns = Inl OutOfBounds" "\<not> link_ok ls ds ss ns k"
    then show ?thesis by simp
  next
    fix ns1
    assume h: "link_iter ls ds ss k ns = Inr ns1" "link_ok ls ds ss ns k" "length ns1 = length ns"
      "map position ns1 = map position ns" "map charge ns1 = map charge ns"
    have same: "link_ok ls ds ss ns1 j = link_ok ls ds ss ns j" for j
      using h(3) by (rule link_ok_length)
    from Cons.IH [of ns1] show ?thesis
      by (simp add: h same)
  qed
qed

lemma integration_phase_simps:
  "length (integration_phase decay ns) = length ns"
  "map charge (integration_phase decay ns) = map charge ns"
  "i < length ns \<Longrightarrow> integration_phase decay ns ! i =
     (ns ! i)\<lparr>position := vplus (position (ns ! i)) (velocity (ns ! i)),
              velocity := vscale decay (velocity (ns ! i))\<rparr>"
  by (simp_all add: integration_phase_def integrate_node_def Let_def vplus_def vscale_def mult_ac)

lemma repulsion_phase_simps:
  "\<exists>ns'. repulsion_phase maxD ns = Inr ns' \<and> length ns' = length ns \<and>
      map position ns' = map position ns \<and> map charge ns' = map charge ns"
proof -
  let ?ns' = "map (repulsed maxD ns) [0..<length ns]"
  have "map position ?ns' = map position ns" "map charge ?ns' = map charge ns"
    by (rule nth_equalityI; simp add: repulsed_def)+
  then show ?thesis by (simp add: repulsion_phase_eq)
qed

lemma step_cases:
  "step s = Inl OutOfBounds \<and> \<not> links_ok s \<or>
   (\<exists>ns1 ns2. links_ok s \<and> repulsion_phase (maxDistance s) (nodes s) = Inr ns1 \<and>
      link_phase (links s) (distances s) (strengths s) ns1 = Inr ns2 \<and>
      step s = Inr (s\<lparr>nodes := integration_phase (velocityDecay s) ns2\<rparr>) \<and>
      length ns1 = length (nodes s) \<and> length ns2 = length (nodes s) \<and>
      map charge ns1 = map charge (nodes s) \<and> map charge ns2 = map charge (nodes s) \<and>
      map position ns1 = map position (nodes s) \<and> map position ns2 = map position (nodes s))"
proof -
  obtain ns1 where r: "repulsion_phase (maxDistance s) (nodes s) = Inr ns1" "length ns1 = length (nodes s)"
      "map position ns1 = map position (nodes s)" "map charge ns1 = map charge (nodes s)"
    using repulsion_phase_simps [of "maxDistance s" "nodes s"] by blast
  have same: "link_ok (links s) (distances s) (strengths s) ns1 k =
      link_ok (links s) (distances s) (strengths s) (nodes s) k" for k
    using r(2) by (rule link_ok_length)
  from link_loop_cases [of "links s" "distances s" "strengths s" "[0..<length (links s)]" ns1]
  show ?thesis
    by (auto simp: step_def r link_phase_def links_ok_def same)
qed


lemma single_node_repulsion: "repulsion_phase maxD [n] = Inr [n]"
  by (simp add: repulsion_phase_eq repulsed_def net_repulsion_def others_def vsum_def vplus_def)

lemma single_node_step:
  assumes "nodes s = [n]" "links s = []"
  shows "step s = Inr (s\<lparr>nodes := [n\<lparr>position := vplus (position n) (velocity n),
                                      velocity := vscale (velocityDecay s) (velocity n)\<rparr>]\<rparr>)"
  using integration_phase_simps(3) [of 0 "[n]" "velocityDecay s"]
  by (simp add: step_def assms single_node_repulsion link_phase_def integration_phase_def)





lemma two_node_repulsion:
  assumes "position n0 = \<lparr>x_c = 0, y_c = 0, z_c = 0\<rparr>" "position n1 = \<lparr>x_c = 1, y_c = 0, z_c = 0\<rparr>"
    and "charge n0 = 1" "charge n1 = 1" "1 < maxD"
  shows "repulsion_phase maxD [n0, n1] =
     Inr [n0\<lparr>velocity := vplus (velocity n0) \<lparr>x_c = 1, y_c = 0, z_c = 0\<rparr>\<rparr>,
          n1\<lparr>velocity := vplus (velocity n1) \<lparr>x_c = - 1, y_c = 0, z_c = 0\<rparr>\<rparr>]"
  using assms
  by (simp add: repulsion_phase_eq repulsed_def net_repulsion_def others_def spec_repulsion_def
        pair_distance_def vnorm_def vminus_def vscale_def vplus_def vsum_def vzero_def)

lemma no_links: "link_phase [] ds ss ns = Inr ns"
  by (simp add: link_phase_def)


section \<open>Claim C1: what step() checks\<close>

text \<open>
  Claim C1, as amended. \<^verbatim>\<open>step()\<close> validates nothing and has no failure of its own. The
  repulsion loop always runs to its end; only after it does the link loop subscript
  \<^verbatim>\<open>distances\<close>, \<^verbatim>\<open>strengths\<close> and \<^verbatim>\<open>nodes\<close>. The call completes exactly when, for every
  link number \<open>k\<close>, \<open>k\<close> is below the sizes of \<^verbatim>\<open>distances\<close> and of \<^verbatim>\<open>strengths\<close> and both
  ends of the link are indices of nodes; arrays longer than \<^verbatim>\<open>links\<close> are accepted. In every
  other case the link loop subscripts a vector out of range.
\<close>

theorem step_completes_iff_subscripts_in_range:
  "(\<exists>ns1. repulsion_phase (maxDistance s) (nodes s) = Inr ns1 \<and>
      (step s = Inl OutOfBounds \<and>
         link_phase (links s) (distances s) (strengths s) ns1 = Inl OutOfBounds \<or>
       (\<exists>s'. step s = Inr s'))) \<and>
   ((\<exists>s'. step s = Inr s') \<longleftrightarrow>
      (\<forall>k<length (links s).
         k < length (distances s) \<and> k < length (strengths s) \<and>
         in_range (source (links s ! k)) (nodes s) \<and> in_range (target (links s ! k)) (nodes s)))"
proof -
  have ok: "links_ok s \<longleftrightarrow> (\<forall>k<length (links s).
         k < length (distances s) \<and> k < length (strengths s) \<and>
         in_range (source (links s ! k)) (nodes s) \<and> in_range (target (links s ! k)) (nodes s))"
    by (simp add: links_ok_def link_ok_def)
  obtain ns1 where r: "repulsion_phase (maxDistance s) (nodes s) = Inr ns1"
    using repulsion_phase_simps [of "maxDistance s" "nodes s"] by blast
  from step_cases [of s] show ?thesis
    unfolding ok [symmetric] r
    by (auto simp: step_def r split: sum.splits)
qed

text \<open>
  Two nodes and one link between them, with one distance and one strength: the call
  completes. The same with the link's target set to \<open>2\<close>, the number of nodes: the link loop
  reads out of range.
\<close>

theorem step_completes_iff_subscripts_in_range_witness:
  "(\<exists>s'. step (mk_engine [mk_node (vec3 0 0 0) (vec3 0 0 0) 1, mk_node (vec3 1 0 0) (vec3 0 0 0) 1]
                     [mk_link 0 1] [1] [1] 100 (1 / 2)) = Inr s') \<and>
   step (mk_engine [mk_node (vec3 0 0 0) (vec3 0 0 0) 1, mk_node (vec3 1 0 0) (vec3 0 0 0) 1]
                [mk_link 0 2] [1] [1] 100 (1 / 2)) = Inl OutOfBounds"
proof -
  let ?ns = "[mk_node (vec3 0 0 0) (vec3 0 0 0) 1, mk_node (vec3 1 0 0) (vec3 0 0 0) 1]"
  let ?good = "mk_engine ?ns [mk_link 0 1] [1] [1] 100 (1 / 2)"
  let ?bad = "mk_engine ?ns [mk_link 0 2] [1] [1] 100 (1 / 2)"
  have a: "\<exists>s'. step ?good = Inr s'"
    using step_completes_iff_subscripts_in_range [of ?good, THEN conjunct2]
    by (simp add: in_range_def)
  have "\<not> (\<exists>s'. step ?bad = Inr s')"
    using step_completes_iff_subscripts_in_range [of ?bad, THEN conjunct2]
    by (simp add: in_range_def)
  then have b: "step ?bad = Inl OutOfBounds"
    using step_completes_iff_subscripts_in_range [of ?bad, THEN conjunct1]
    by blast
  from a b show ?thesis by simp
qed

text \<open>
  The claim as written does not hold of the code. With no link and one distance the
  lengths differ, yet \<^verbatim>\<open>step()\<close> completes and moves the node. With a link whose target is
  the number of nodes, the repulsion loop has already changed both velocities when the
  link loop reads out of range.
\<close>

theorem step_validation_counterexample:
  "length (distances (mk_engine [mk_node (vec3 0 0 0) (vec3 1 0 0) 1] [] [1] [] 100 (1 / 2))) = 1 \<and>
   length (links (mk_engine [mk_node (vec3 0 0 0) (vec3 1 0 0) 1] [] [1] [] 100 (1 / 2))) = 0 \<and>
   step (mk_engine [mk_node (vec3 0 0 0) (vec3 1 0 0) 1] [] [1] [] 100 (1 / 2)) =
     Inr (mk_engine [mk_node (vec3 1 0 0) (vec3 (1 / 2) 0 0) 1] [] [1] [] 100 (1 / 2)) \<and>
   repulsion_phase 100 [mk_node (vec3 0 0 0) (vec3 0 0 0) 1, mk_node (vec3 1 0 0) (vec3 0 0 0) 1] =
     Inr [mk_node (vec3 0 0 0) (vec3 1 0 0) 1, mk_node (vec3 1 0 0) (vec3 (- 1) 0 0) 1] \<and>
   link_phase [mk_link 0 2] [1] [1]
       [mk_node (vec3 0 0 0) (vec3 1 0 0) 1, mk_node (vec3 1 0 0) (vec3 (- 1) 0 0) 1] =
     Inl OutOfBounds \<and>
   step (mk_engine [mk_node (vec3 0 0 0) (vec3 0 0 0) 1, mk_node (vec3 1 0 0) (vec3 0 0 0) 1]
                [mk_link 0 2] [1] [1] 100 (1 / 2)) = Inl OutOfBounds"
proof -
  have fault: "link_phase [mk_link 0 2] [1] [1] ns = Inl OutOfBounds"
    if "length ns = 2" for ns :: "Node list"
    using that by (simp add: link_phase_def link_iter_def in_range_def)
  show ?thesis
    by (intro conjI)
       (simp_all add: single_node_step vplus_def vscale_def two_node_repulsion fault,
        simp add: step_def two_node_repulsion fault)
qed

section \<open>Claim C2: the repulsion loop\<close>



section \<open>Claim C3: the link loop\<close>



section \<open>Claim C4: the integration loop\<close>



section \<open>Claim C5: getNodes()\<close>




section \<open>Claim C6: determinism\<close>



section \<open>Claim C7: one node, no links\<close>




section \<open>Claim C8: two unit charges\<close>




section \<open>Claim C9: no division by zero\<close>

text \<open>
  Claim C9. No division in \<^verbatim>\<open>step()\<close> has a zero divisor: not in the body of the repulsion
  loop, not in the body of the link loop, whatever their inputs. When the link indices
  are in range and \<^verbatim>\<open>distances\<close> and \<^verbatim>\<open>strengths\<close> are as long as \<^verbatim>\<open>links\<close>, \<^verbatim>\<open>step()\<close> runs to
  completion.
\<close>

theorem no_division_by_zero:
  "(\<forall>ns maxD i j force. repulsion_pair ns maxD i j force \<noteq> Inl DivisionByZero) \<and>
   (\<forall>ls ds ss k ns. link_iter ls ds ss k ns \<noteq> Inl DivisionByZero) \<and>
   step s \<noteq> Inl DivisionByZero \<and>
   (length (distances s) = length (links s) \<and> length (strengths s) = length (links s) \<and>
    (\<forall>l\<in>set (links s). in_range (source l) (nodes s) \<and> in_range (target l) (nodes s))
      \<longrightarrow> (\<exists>s'. step s = Inr s'))"
proof (intro conjI allI impI)
  fix ns maxD i j force
  show "repulsion_pair ns maxD i j force \<noteq> Inl DivisionByZero"
    by (cases "i = j") (simp_all add: repulsion_pair_eq, simp add: repulsion_pair_def)
next
  fix ls ds ss k ns
  show "link_iter ls ds ss k ns \<noteq> Inl DivisionByZero"
    using link_iter_cases [of ls ds ss k ns] by auto
next
  show "step s \<noteq> Inl DivisionByZero"
    using step_cases [of s] by auto
next
  assume "length (distances s) = length (links s) \<and> length (strengths s) = length (links s) \<and>
    (\<forall>l\<in>set (links s). in_range (source l) (nodes s) \<and> in_range (target l) (nodes s))"
  then have "links_ok s"
    by (simp add: links_ok_def link_ok_def)
  with step_cases [of s] show "\<exists>s'. step s = Inr s'" by auto
qed

text \<open>Two nodes, one link between them.\<close>

theorem no_division_by_zero_witness:
  "\<exists>s'. step (mk_engine [mk_node (vec3 0 0 0) (vec3 0 0 0) 1, mk_node (vec3 1 0 0) (vec3 0 0 0) 1]
                    [mk_link 0 1] [1] [1] 100 (1 / 2)) = Inr s'"
  using no_division_by_zero [of
     "mk_engine [mk_node (vec3 0 0 0) (vec3 0 0 0) 1, mk_node (vec3 1 0 0) (vec3 0 0 0) 1]
             [mk_link 0 1] [1] [1] 100 (1 / 2)"]
  by (simp add: in_range_def)

section \<open>Claim C10: what step() leaves alone\<close>

text \<open>
  Claim C10. A \<^verbatim>\<open>step()\<close> that completes leaves the number of nodes, the charge of every
  node, the links, distances and strengths, \<^verbatim>\<open>maxDistance\<close> and \<^verbatim>\<open>velocityDecay\<close> as they
  were.
\<close>

theorem step_preserves_all_but_motion:
  "step s = Inr s' \<Longrightarrow>
     length (nodes s') = length (nodes s) \<and>
     map charge (nodes s') = map charge (nodes s) \<and>
     links s' = links s \<and> distances s' = distances s \<and> strengths s' = strengths s \<and>
     maxDistance s' = maxDistance s \<and> velocityDecay s' = velocityDecay s"
  using step_cases [of s] by (auto simp: integration_phase_simps)

text \<open>Two unit charges, one step.\<close>

theorem step_preserves_all_but_motion_witness:
  "step (mk_engine [mk_node (vec3 0 0 0) (vec3 0 0 0) 1, mk_node (vec3 1 0 0) (vec3 0 0 0) 2]
                [] [] [] 100 (1 / 2)) =
     Inr (mk_engine [mk_node (vec3 2 0 0) (vec3 1 0 0) 1, mk_node (vec3 (- 1) 0 0) (vec3 (- 1) 0 0) 2]
                 [] [] [] 100 (1 / 2)) \<and>
   length [mk_node (vec3 2 0 0) (vec3 1 0 0) 1, mk_node (vec3 (- 1) 0 0) (vec3 (- 1) 0 0) 2] = 2 \<and>
   map charge [mk_node (vec3 2 0 0) (vec3 1 0 0) 1, mk_node (vec3 (- 1) 0 0) (vec3 (- 1) 0 0) 2] = [1, 2]"
proof -
  let ?s = "mk_engine [mk_node (vec3 0 0 0) (vec3 0 0 0) 1, mk_node (vec3 1 0 0) (vec3 0 0 0) 2]
                   [] [] [] 100 (1 / 2)"
  let ?s' = "mk_engine [mk_node (vec3 2 0 0) (vec3 1 0 0) 1, mk_node (vec3 (- 1) 0 0) (vec3 (- 1) 0 0) 2]
                    [] [] [] 100 (1 / 2)"
  have e: "step ?s = Inr ?s'"
    by (simp add: step_def repulsion_phase_eq repulsed_def net_repulsion_def others_def
          spec_repulsion_def pair_distance_def vnorm_def vminus_def vscale_def vplus_def vsum_def
          no_links integration_phase_def integrate_node_def)
  from step_preserves_all_but_motion [OF e] e show ?thesis by simp
qed

end
